theory Spec2Isabelle
  imports Complex_Main "HOL-Library.Sublist" "HOL-Library.Char_ord" "HOL-Library.List_Lexorder"
begin

section \<open>Python values, string interpolation and dictionaries\<close>

text \<open>
  The notebooks keep their configuration in Python dictionaries from string keys to
  values that are strings, integers, \<^verbatim>\<open>None\<close>, or objects of other classes (floats,
  \<^verbatim>\<open>pathlib.Path\<close>, numpy scalars). An f-string \<^verbatim>\<open>f"{v}"\<close> reads of such an object only the
  text its \<^verbatim>\<open>__str__\<close> returns, so \<open>PObj\<close> carries that text.
\<close>

datatype pyval = PNone | PInt int | PStr string | PObj string

text \<open>A dictionary keeps its entries in insertion order, one entry per key.\<close>

type_synonym pydict = "(string \<times> pyval) list"

definition wf_dict :: "pydict \<Rightarrow> bool" where
  "wf_dict d = distinct (map fst d)"

definition digit_char :: "nat \<Rightarrow> char" where
  "digit_char d = ''0123456789'' ! d"

function str_nat :: "nat \<Rightarrow> string" where
  "str_nat n = (if n < 10 then [digit_char n] else str_nat (n div 10) @ [digit_char (n mod 10)])"
  by pat_completeness auto
termination
  by (relation "measure (\<lambda>n. n)") auto

declare str_nat.simps [simp del]

definition str_int :: "int \<Rightarrow> string" where
  "str_int i = (if i < 0 then ''-'' @ str_nat (nat (- i)) else str_nat (nat i))"

text \<open>\<^verbatim>\<open>f"{v}"\<close>: the value as \<^verbatim>\<open>str\<close> gives it, with nothing escaped or quoted.\<close>

fun py_str :: "pyval \<Rightarrow> string" where
  "py_str PNone = ''None''"
| "py_str (PInt i) = str_int i"
| "py_str (PStr s) = s"
| "py_str (PObj s) = s"

text \<open>\<^verbatim>\<open>d[k] = v\<close>: an existing key keeps its position, a new key goes to the end.\<close>

fun dict_set :: "pydict \<Rightarrow> string \<Rightarrow> pyval \<Rightarrow> pydict" where
  "dict_set [] k v = [(k, v)]"
| "dict_set ((k', v') # d) k v = (if k' = k then (k, v) # d else (k', v') # dict_set d k v)"

text \<open>\<^verbatim>\<open>d.update(e)\<close>: the entries of \<open>e\<close> are stored one by one, in the order of \<open>e\<close>.\<close>

definition dict_update :: "pydict \<Rightarrow> pydict \<Rightarrow> pydict" where
  "dict_update d e = foldl (\<lambda>acc (k, v). dict_set acc k v) d e"

text \<open>\<^verbatim>\<open>sep.join(xs)\<close>\<close>

fun join :: "string \<Rightarrow> string list \<Rightarrow> string" where
  "join sep [] = []"
| "join sep [x] = x"
| "join sep (x # y # ys) = x @ sep @ join sep (y # ys)"

section \<open>Rendering dictionaries as command-line flags\<close>

text \<open>
  \<^verbatim>\<open>
  def dicts2str(*args: dict) -> str:
      def d2s(d: dict) -> str:
          return " ".join(f"-{k} {v}" for k, v in d.items())
      return " ".join(d2s(d) for d in args if d)
  \<close>
  A dictionary is falsy exactly when it has no entry.
\<close>

definition flag :: "string \<times> pyval \<Rightarrow> string" where
  "flag e = ''-'' @ fst e @ '' '' @ py_str (snd e)"

definition d2s :: "pydict \<Rightarrow> string" where
  "d2s d = join '' '' (map flag d)"

definition dicts2str :: "pydict list \<Rightarrow> string" where
  "dicts2str args = join '' '' (map d2s (filter (\<lambda>d. d \<noteq> []) args))"

text \<open>
  Modelled from the spec: \<^verbatim>\<open>merge_dicts\<close> of \<^verbatim>\<open>pism_tutorials.utils\<close>, whose body is not
  among the sources. The spec: merge an ordered sequence of key-value mappings into one,
  later entries overriding earlier ones on key collision. The mappings are stored into an
  empty dictionary one after the other.
\<close>

definition merge_dicts :: "pydict list \<Rightarrow> pydict" where
  "merge_dicts ds = foldl dict_update [] ds"

text \<open>
  Modelled from the spec: \<^verbatim>\<open>sort_dict_by_key\<close> of \<^verbatim>\<open>pism_tutorials.utils\<close>, whose body is
  not among the sources. The spec: sort by key for reproducible output. Keys are strings,
  which Python compares lexicographically by code point.
\<close>

definition sort_dict_by_key :: "pydict \<Rightarrow> pydict" where
  "sort_dict_by_key d = sort_key fst d"

text \<open>
  Modelled from the spec: \<^verbatim>\<open>dict2str\<close> of \<^verbatim>\<open>pism_tutorials.utils\<close>, whose body is not
  among the sources. The spec: render to a single string of \<^verbatim>\<open>-key value\<close> tokens, skipping
  keys whose value is empty or \<^verbatim>\<open>None\<close>.
\<close>

definition is_blank :: "pyval \<Rightarrow> bool" where
  "is_blank v = (v = PNone \<or> v = PStr [])"

definition dict2str :: "pydict \<Rightarrow> string" where
  "dict2str d = join '' '' (map flag (filter (\<lambda>e. \<not> is_blank (snd e)) d))"

section \<open>Command strings and the run loops\<close>

text \<open>
  \<^verbatim>\<open>
  run_str = dict2str(sort_dict_by_key(run_dict))
  cmd = f"mpirun -np {n} pism " + run_str
  \<close>
\<close>

definition cmd :: "int \<Rightarrow> pydict \<Rightarrow> string" where
  "cmd n run_dict = ''mpirun -np '' @ py_str (PInt n) @ '' pism '' @ dict2str (sort_dict_by_key run_dict)"

text \<open>
  The notebook state that the run loops touch: the configuration dictionary, the exit
  status that IPython's \<^verbatim>\<open>!\<close> escape stores in \<^verbatim>\<open>_exit_code\<close> (it raises nothing, whatever the
  status), and the commands handed to the shell so far.
\<close>

record nb_state =
  run_dict :: pydict
  exit_code :: int
  issued :: "string list"

text \<open>
  \<^verbatim>\<open>! $cmd\<close>: the shell runs the command and the notebook waits for it. The environment
  \<open>sh\<close> gives the exit status of the \<open>i\<close>-th invocation.
\<close>

definition shell :: "(nat \<Rightarrow> string \<Rightarrow> int) \<Rightarrow> nb_state \<Rightarrow> string \<Rightarrow> nb_state" where
  "shell sh st c = st\<lparr>exit_code := sh (length (issued st)) c, issued := issued st @ [c]\<rparr>"

text \<open>
  \<^verbatim>\<open>Path(output_dir) / name\<close>, as \<^verbatim>\<open>str\<close> shows it, for a directory written as one or more
  plain components and a relative file name, as the notebooks build them. The current
  directory, written \<^verbatim>\<open>.\<close> or as the empty string, adds nothing to the name, and a separator
  that ends the directory is not doubled.
\<close>

definition path_join :: "string \<Rightarrow> string \<Rightarrow> string" where
  "path_join dir name =
     (if dir = [] \<or> dir = ''.'' then name
      else if last dir = CHR ''/'' then dir @ name
      else dir @ ''/'' @ name)"

text \<open>
  The Greenland projection loop:
  \<^verbatim>\<open>
  for rcp, climate_file in zip([26, 85], climate_files):
      extra_file = Path(output_dir) / f"spatial_g{resolution}_rcp_{rcp}_{start}_{end}.nc"
      run_dict.update({"surface.ismip6.file": climate_file, "output.extra.file": extra_file})
      run_str = dict2str(sort_dict_by_key(run_dict))
      cmd = f"mpirun -np {n} pism " + run_str
      ! $cmd
  \<close>
\<close>

record run_names =
  output_dir :: string
  resolution :: string
  start :: string
  end_date :: string

definition greenland_update :: "run_names \<Rightarrow> pydict \<Rightarrow> int \<times> string \<Rightarrow> pydict" where
  "greenland_update nm rd it =
     (let rcp = fst it; climate_file = snd it;
          extra_file = path_join (output_dir nm)
            (''spatial_g'' @ resolution nm @ ''_rcp_'' @ py_str (PInt rcp) @ ''_'' @ start nm @ ''_''
               @ end_date nm @ ''.nc'')
      in dict_update rd
           [(''surface.ismip6.file'', PStr climate_file), (''output.extra.file'', PObj extra_file)])"

definition greenland_step ::
  "(nat \<Rightarrow> string \<Rightarrow> int) \<Rightarrow> int \<Rightarrow> run_names \<Rightarrow> nb_state \<Rightarrow> int \<times> string \<Rightarrow> nb_state" where
  "greenland_step sh n nm st it =
     (let rd = greenland_update nm (run_dict st) it
      in shell sh (st\<lparr>run_dict := rd\<rparr>) (cmd n rd))"

definition greenland_loop ::
  "(nat \<Rightarrow> string \<Rightarrow> int) \<Rightarrow> int \<Rightarrow> run_names \<Rightarrow> nb_state \<Rightarrow> (int \<times> string) list \<Rightarrow> nb_state" where
  "greenland_loop sh n nm st its = foldl (greenland_step sh n nm) st its"

text \<open>The dictionaries that the iterations serialize, one per iteration.\<close>

fun greenland_dicts :: "run_names \<Rightarrow> pydict \<Rightarrow> (int \<times> string) list \<Rightarrow> pydict list" where
  "greenland_dicts nm rd [] = []"
| "greenland_dicts nm rd (it # its) =
     greenland_update nm rd it # greenland_dicts nm (greenland_update nm rd it) its"

text \<open>
  The loop over the drainage sectors (what it prints is left out):
  \<^verbatim>\<open>
  for m_id, domain in domains_gp.iterrows():
      name = domain["SUBREGION1"]
      for s_id, sample in median_df.iterrows():
          run_dict.update(sample.to_dict())
          state_file = Path(output_dir) / f"state_g{resolution}_sector_{name}_id_{s_id}.nc"
          spatial_file = Path(output_dir) / f"spatial_g{resolution}_sector_{name}_id_{s_id}.nc"
          run_dict.update({"grid.file": f"domain_{name}.nc", "output.file": state_file,
                           "output.extra.file": spatial_file})
          run_str = dict2str(sort_dict_by_key(run_dict))
          cmd = f"mpirun -np {n} pism " + run_str
          ! $cmd
  \<close>
\<close>

definition sector_update :: "run_names \<Rightarrow> string \<Rightarrow> pydict \<Rightarrow> int \<times> pydict \<Rightarrow> pydict" where
  "sector_update nm name rd smp =
     (let s_id = fst smp; sample = snd smp;
          rd1 = dict_update rd sample;
          state_file = path_join (output_dir nm)
            (''state_g'' @ resolution nm @ ''_sector_'' @ name @ ''_id_'' @ py_str (PInt s_id) @ ''.nc'');
          spatial_file = path_join (output_dir nm)
            (''spatial_g'' @ resolution nm @ ''_sector_'' @ name @ ''_id_'' @ py_str (PInt s_id) @ ''.nc'')
      in dict_update rd1
           [(''grid.file'', PStr (''domain_'' @ name @ ''.nc'')), (''output.file'', PObj state_file),
            (''output.extra.file'', PObj spatial_file)])"

definition sector_step ::
  "(nat \<Rightarrow> string \<Rightarrow> int) \<Rightarrow> int \<Rightarrow> run_names \<Rightarrow> string \<Rightarrow> nb_state \<Rightarrow> int \<times> pydict \<Rightarrow> nb_state" where
  "sector_step sh n nm name st smp =
     (let rd = sector_update nm name (run_dict st) smp
      in shell sh (st\<lparr>run_dict := rd\<rparr>) (cmd n rd))"

definition sector_loop ::
  "(nat \<Rightarrow> string \<Rightarrow> int) \<Rightarrow> int \<Rightarrow> run_names \<Rightarrow> nb_state \<Rightarrow> string list \<Rightarrow> (int \<times> pydict) list
     \<Rightarrow> nb_state" where
  "sector_loop sh n nm st domains samples =
     foldl (\<lambda>st name. foldl (sector_step sh n nm name) st samples) st domains"

text \<open>The dictionaries that the iterations of the sector loop serialize, in order.\<close>

fun sector_sample_dicts :: "run_names \<Rightarrow> string \<Rightarrow> pydict \<Rightarrow> (int \<times> pydict) list \<Rightarrow> pydict list" where
  "sector_sample_dicts nm name rd [] = []"
| "sector_sample_dicts nm name rd (smp # smps) =
     sector_update nm name rd smp # sector_sample_dicts nm name (sector_update nm name rd smp) smps"

fun sector_dicts :: "run_names \<Rightarrow> pydict \<Rightarrow> string list \<Rightarrow> (int \<times> pydict) list \<Rightarrow> pydict list" where
  "sector_dicts nm rd [] samples = []"
| "sector_dicts nm rd (name # names) samples =
     sector_sample_dicts nm name rd samples
       @ sector_dicts nm (last (rd # sector_sample_dicts nm name rd samples)) names samples"

text \<open>
  One notebook hands the shell a command that is written out by hand (the second
  assignment to \<^verbatim>\<open>f\<close> is the one that \<^verbatim>\<open>!$f\<close> runs), beside these dictionaries:
  \<^verbatim>\<open>
  f = "mpirun -np 8 pism -bootstrap  -time.calendar standard ..."
  !$f
  grid_params = {"grid.dx": resolution, ..., "input.regrid.vars": "litho_temp,..."}
  time_params = {"time.start": "2015-01-01", "time.end": "2099-31-12"}
  climate_params = {"surface.models": "ismip6", ...}
  \<close>
\<close>

definition literal_f :: string where
  "literal_f = ''mpirun -np 8 pism -bootstrap  -time.calendar standard -time.start 2008-01-01 -time.end 2018-01-01 -surface.models ismip6 -surface.ismip6.reference_file g1200m_id_BAYES-MEDIAN_1980-1-1_1984-12-31.nc -surface.ismip6.file MARv3.9_ACCESS1.3-rcp85_climate_1960-2100_v1.nc  -i g1200m_id_BAYES-MEDIAN_1980-1-1_1984-12-31.nc  -input.regrid.file g1200m_id_BAYES-MEDIAN_1980-1-1_1984-12-31.nc -input.regrid.vars litho_temp,enthalpy,age,tillwat,bmelt,ice_area_specific_volume,thk -grid.file pism-bedmachine.nc -grid.dx 3600m -grid.dy 3600m -grid.Mz 101 -grid.Lz 4000 -grid.Mbz 11 -grid.Lbz 1000''"

definition literal_grid_params :: pydict where
  "literal_grid_params =
     [(''grid.dx'', PStr ''3600m''), (''grid.dy'', PStr ''3600m''), (''grid.Mz'', PInt 101),
      (''grid.Lz'', PInt 4000), (''grid.Mbz'', PInt 11), (''grid.Lbz'', PInt 1000),
      (''input.regrid.vars'', PStr ''litho_temp,enthalpy,age,tillwat,bmelt,ice_area_specific_volume,thk'')]"

definition literal_time_params :: pydict where
  "literal_time_params = [(''time.start'', PStr ''2015-01-01''), (''time.end'', PStr ''2099-31-12'')]"

definition literal_climate_params :: pydict where
  "literal_climate_params =
     [(''surface.models'', PStr ''ismip6''),
      (''surface.ismip6.reference_file'', PStr ''g1200m_id_BAYES-MEDIAN_1980-1-1_1984-12-31.nc''),
      (''surface.ismip6.file'', PStr ''MARv3.9_ACCESS1.3-rcp85_climate_1960-2100_v1.nc'')]"

text \<open>The two keys that an iteration of the Greenland loop stores.\<close>

definition greenland_keys :: "string set" where
  "greenland_keys = {''surface.ismip6.file'', ''output.extra.file''}"

text \<open>
  A small configuration on which the loops are evaluated: the names of the projection
  notebook, and a dictionary with a key of each kind.
\<close>

definition demo_names :: run_names where
  "demo_names = \<lparr>output_dir = ''test_run'', resolution = ''4500m'', start = ''2015-01-01'', end_date = ''2100-01-01''\<rparr>"

definition demo_state :: nb_state where
  "demo_state = \<lparr>run_dict = [(''i'', PStr ''g.nc''), (''surface.ismip6.file'', PStr []), (''grid.Mz'', PInt 101)],
                 exit_code = 0, issued = []\<rparr>"

section \<open>The MISMIP+ bed\<close>

text \<open>
  \<^verbatim>\<open>
  def Bx(x, B0 = -150, B2 = -728.8, B4 = 343.91, B6 = -50.57, x_bar = 300e3):
      return B0 + B2 * (x / x_bar)**2  + B4 * (x / x_bar)**4 + B6 * (x / x_bar)**6

  def By(y, Ly = 80e3, dc = 500, fc = 4e3, wc = 24e3):
      return dc / (1 + np.exp(-2*(y -Ly/2 - wc) /fc)) + dc / (1 + np.exp(2*(y -Ly/2 + wc) /fc))
  \<close>
  The arithmetic is read over the real numbers. \<open>Bx\<close> and \<open>By\<close> take every parameter;
  \<open>Bx_default\<close> and \<open>By_default\<close> are the calls with the default arguments.
\<close>

definition Bx :: "real \<Rightarrow> real \<Rightarrow> real \<Rightarrow> real \<Rightarrow> real \<Rightarrow> real \<Rightarrow> real" where
  "Bx x B0 B2 B4 B6 x_bar = B0 + B2 * (x / x_bar) ^ 2 + B4 * (x / x_bar) ^ 4 + B6 * (x / x_bar) ^ 6"

definition By :: "real \<Rightarrow> real \<Rightarrow> real \<Rightarrow> real \<Rightarrow> real \<Rightarrow> real" where
  "By y Ly dc fc wc =
     dc / (1 + exp (- 2 * (y - Ly / 2 - wc) / fc)) + dc / (1 + exp (2 * (y - Ly / 2 + wc) / fc))"

definition Bx_default :: "real \<Rightarrow> real" where
  "Bx_default x = Bx x (- 150) (- 728.8) 343.91 (- 50.57) 300000"

definition By_default :: "real \<Rightarrow> real" where
  "By_default y = By y 80000 500 4000 24000"

section \<open>Dictionaries: assignment, update and merge\<close>

lemma map_of_dict_set: "map_of (dict_set d k v) = (map_of d)(k \<mapsto> v)"
  by (induction d k v rule: dict_set.induct) (auto simp: fun_eq_iff)

lemma keys_dict_set: "fst ` set (dict_set d k v) = insert k (fst ` set d)"
  by (induction d k v rule: dict_set.induct) auto

lemma wf_dict_set: "wf_dict d \<Longrightarrow> wf_dict (dict_set d k v)"
proof (induction d k v rule: dict_set.induct)
  case (1 k v)
  then show ?case by (simp add: wf_dict_def)
next
  case (2 k' v' d k v)
  then show ?case
    using keys_dict_set[of d k v] by (auto simp: wf_dict_def)
qed

lemma dict_update_Nil: "dict_update d [] = d"
  by (simp add: dict_update_def)

lemma dict_update_Cons: "dict_update d ((k, v) # e) = dict_update (dict_set d k v) e"
  by (simp add: dict_update_def)

lemma wf_dict_update: "wf_dict d \<Longrightarrow> wf_dict (dict_update d e)"
  by (induction e arbitrary: d) (auto simp: dict_update_Nil dict_update_Cons wf_dict_set)

lemma keys_dict_update: "fst ` set (dict_update d e) = fst ` set d \<union> fst ` set e"
proof (induction e arbitrary: d)
  case Nil
  then show ?case by (simp add: dict_update_Nil)
next
  case (Cons a e)
  obtain k v where a: "a = (k, v)" by (cases a)
  show ?case
    unfolding a dict_update_Cons Cons.IH keys_dict_set by auto
qed

lemma map_of_dict_update: "wf_dict e \<Longrightarrow> map_of (dict_update d e) = map_of d ++ map_of e"
proof (induction e arbitrary: d)
  case Nil
  then show ?case by (simp add: dict_update_Nil)
next
  case (Cons a e)
  obtain k v where a: "a = (k, v)" by (cases a)
  from Cons.prems have wf: "wf_dict e" and nin: "k \<notin> fst ` set e"
    by (auto simp: wf_dict_def a)
  have "map_of (dict_update d (a # e)) = (map_of d)(k \<mapsto> v) ++ map_of e"
    unfolding a dict_update_Cons Cons.IH[OF wf] map_of_dict_set ..
  also have "\<dots> = map_of d ++ map_of (a # e)"
  proof -
    have "map_of e k = None" using nin by (simp add: map_of_eq_None_iff)
    then show ?thesis
      by (auto simp: a fun_eq_iff map_add_def split: option.splits)
  qed
  finally show ?case .
qed

lemma map_of_dict_update_other:
  "k \<notin> fst ` set e \<Longrightarrow> map_of (dict_update d e) k = map_of d k"
proof (induction e arbitrary: d)
  case Nil
  then show ?case by (simp add: dict_update_Nil)
next
  case (Cons a e)
  obtain k' v where a: "a = (k', v)" by (cases a)
  with Cons show ?case
    by (auto simp: dict_update_Cons map_of_dict_set)
qed

lemma merge_dicts_Nil: "merge_dicts [] = []"
  by (simp add: merge_dicts_def)

lemma merge_dicts_snoc: "merge_dicts (ds @ [d]) = dict_update (merge_dicts ds) d"
  by (simp add: merge_dicts_def)

lemma wf_merge_dicts: "wf_dict (merge_dicts ds)"
proof (induction ds rule: rev_induct)
  case Nil
  show ?case by (simp add: merge_dicts_Nil wf_dict_def)
next
  case (snoc d ds)
  then show ?case by (simp add: merge_dicts_snoc wf_dict_update)
qed

lemma keys_merge_dicts: "fst ` set (merge_dicts ds) = (\<Union>d\<in>set ds. fst ` set d)"
  by (induction ds rule: rev_induct)
     (auto simp: merge_dicts_Nil merge_dicts_snoc keys_dict_update)

lemma map_of_merge_dicts_append:
  "\<forall>e\<in>set post. k \<notin> fst ` set e \<Longrightarrow> map_of (merge_dicts (ds @ post)) k = map_of (merge_dicts ds) k"
proof (induction post rule: rev_induct)
  case Nil
  then show ?case by simp
next
  case (snoc e post)
  have "map_of (merge_dicts ((ds @ post) @ [e])) k = map_of (merge_dicts (ds @ post)) k"
    unfolding merge_dicts_snoc using snoc.prems by (simp add: map_of_dict_update_other)
  with snoc show ?case by simp
qed

lemma map_of_merge_dicts_last:
  assumes "wf_dict d" "(k, v) \<in> set d" "\<forall>e\<in>set post. k \<notin> fst ` set e"
  shows "map_of (merge_dicts (pre @ d # post)) k = Some v"
proof -
  have "map_of (merge_dicts ((pre @ [d]) @ post)) k = map_of (merge_dicts (pre @ [d])) k"
    using assms(3) by (rule map_of_merge_dicts_append)
  also have "\<dots> = (map_of (merge_dicts pre) ++ map_of d) k"
    by (simp add: merge_dicts_snoc map_of_dict_update[OF assms(1)])
  also have "\<dots> = Some v"
    using assms(1,2) by (simp add: wf_dict_def map_add_def)
  finally show ?thesis by simp
qed

text \<open>
  Claim C1. For every sequence of dictionaries given to \<open>merge_dicts\<close>, the result has
  exactly one entry for each key that occurs in some input, and no other key; the value
  of a key is the one it has in the last input dictionary that contains it. So for two
  dictionaries that share a key, the merged dictionary holds the value of the second.
\<close>

theorem merge_dicts_last_write_wins:
  assumes "\<forall>d\<in>set ds. wf_dict d"
  shows "wf_dict (merge_dicts ds)
    \<and> fst ` set (merge_dicts ds) = (\<Union>d\<in>set ds. fst ` set d)
    \<and> (\<forall>pre d post k v. ds = pre @ d # post \<and> (k, v) \<in> set d \<and> (\<forall>e\<in>set post. k \<notin> fst ` set e)
          \<longrightarrow> map_of (merge_dicts ds) k = Some v \<and> (\<forall>v'. (k, v') \<in> set (merge_dicts ds) \<longrightarrow> v' = v))"
proof (intro conjI allI impI)
  show "wf_dict (merge_dicts ds)" by (rule wf_merge_dicts)
  show "fst ` set (merge_dicts ds) = (\<Union>d\<in>set ds. fst ` set d)" by (rule keys_merge_dicts)
next
  fix pre d post k v
  assume h: "ds = pre @ d # post \<and> (k, v) \<in> set d \<and> (\<forall>e\<in>set post. k \<notin> fst ` set e)"
  then have "wf_dict d" using assms by auto
  with h show m: "map_of (merge_dicts ds) k = Some v"
    by (simp add: map_of_merge_dicts_last)
  fix v'
  assume "(k, v') \<in> set (merge_dicts ds)"
  then have "map_of (merge_dicts ds) k = Some v'"
    using wf_merge_dicts[of ds] by (simp add: wf_dict_def)
  with m show "v' = v" by simp
qed

theorem merge_dicts_last_write_wins_witness:
  "wf_dict [(''a'', PInt 1), (''k'', PInt 1)] \<and> wf_dict [(''k'', PInt 2)]
   \<and> merge_dicts [[(''a'', PInt 1), (''k'', PInt 1)], [(''k'', PInt 2)]] = [(''a'', PInt 1), (''k'', PInt 2)]
   \<and> map_of (merge_dicts [[(''a'', PInt 1), (''k'', PInt 1)], [(''k'', PInt 2)]]) ''k'' = Some (PInt 2)"
proof -
  let ?D1 = "[(''a'', PInt 1), (''k'', PInt 1)]" and ?D2 = "[(''k'', PInt 2)]"
  have wf: "\<forall>d\<in>set [?D1, ?D2]. wf_dict d" by (simp add: wf_dict_def)
  have "map_of (merge_dicts [?D1, ?D2]) ''k'' = Some (PInt 2)"
    using merge_dicts_last_write_wins[OF wf]
    by (elim conjE allE[of _ "[?D1]"] allE[of _ ?D2] allE[of _ "[]"] allE[of _ "''k''"] allE[of _ "PInt 2"]) simp
  moreover have "merge_dicts [?D1, ?D2] = [(''a'', PInt 1), (''k'', PInt 2)]"
    by (simp add: merge_dicts_def dict_update_def)
  ultimately show ?thesis using wf by simp
qed

section \<open>Properties of the rendering\<close>

lemma join_Cons: "join sep (x # xs) = (if xs = [] then x else x @ sep @ join sep xs)"
  by (cases xs) simp_all

lemma join_append:
  "join sep (xs @ ys) =
     (if xs = [] then join sep ys else if ys = [] then join sep xs
      else join sep xs @ sep @ join sep ys)"
  by (induction sep xs rule: join.induct) (simp_all add: join_Cons)

lemma join_concat:
  assumes "\<forall>d\<in>set ds. d \<noteq> []"
  shows "join sep (map (\<lambda>d. join sep (map f d)) ds) = join sep (concat (map (map f) ds))"
  using assms
proof (induction ds)
  case Nil
  show ?case by simp
next
  case (Cons d ds)
  then have d: "d \<noteq> []" and ih: "join sep (map (\<lambda>d. join sep (map f d)) ds) = join sep (concat (map (map f) ds))"
    by simp_all
  show ?case
  proof (cases ds)
    case Nil
    then show ?thesis by simp
  next
    case (Cons e es)
    with Cons.prems have "e \<noteq> []" by simp
    then have ne: "concat (map (map f) ds) \<noteq> []" using Cons by simp
    have "join sep (map (\<lambda>d. join sep (map f d)) (d # ds))
            = join sep (map f d) @ sep @ join sep (map (\<lambda>d. join sep (map f d)) ds)"
      using Cons by simp
    also have "\<dots> = join sep (map f d) @ sep @ join sep (concat (map (map f) ds))"
      by (simp only: ih)
    also have "\<dots> = join sep (map f d @ concat (map (map f) ds))"
    proof -
      have "map f d \<noteq> []" using d by simp
      with ne show ?thesis by (simp only: join_append if_False)
    qed
    finally show ?thesis by simp
  qed
qed

lemma concat_filter_nonempty: "concat (map (map f) (filter (\<lambda>d. d \<noteq> []) ds)) = concat (map (map f) ds)"
  by (induction ds) simp_all

lemma dicts2str_flat: "dicts2str args = join '' '' (concat (map (map flag) args))"
proof -
  have "dicts2str args = join '' '' (concat (map (map flag) (filter (\<lambda>d. d \<noteq> []) args)))"
    unfolding dicts2str_def d2s_def by (rule join_concat) simp
  then show ?thesis by (simp only: concat_filter_nonempty)
qed

lemma sublist_join: "x \<in> set xs \<Longrightarrow> sublist x (join sep xs)"
proof (induction sep xs rule: join.induct)
  case (3 sep y z zs)
  show ?case
  proof (cases "x = y")
    case True
    then show ?thesis by simp
  next
    case False
    with 3 have "sublist x (join sep (z # zs))" by simp
    then have "sublist x ((y @ sep) @ join sep (z # zs))"
      by (meson sublist_append_leftI sublist_order.order.trans)
    then show ?thesis by simp
  qed
qed simp_all

lemma flag_eq: "flag = (\<lambda>(k, v). ''-'' @ k @ '' '' @ py_str v)"
  by (auto simp: flag_def fun_eq_iff)

lemma dicts2str_append:
  "dicts2str (as @ bs) =
     (if filter (\<lambda>d. d \<noteq> []) as = [] then dicts2str bs
      else if filter (\<lambda>d. d \<noteq> []) bs = [] then dicts2str as
      else dicts2str as @ '' '' @ dicts2str bs)"
  by (simp add: dicts2str_def join_append)

lemma dicts2str_filter: "dicts2str (filter (\<lambda>d. d \<noteq> []) args) = dicts2str args"
  by (simp add: dicts2str_def)

lemma dicts2str_drop_empty: "dicts2str (xs @ [] # ys) = dicts2str (xs @ ys)"
  by (simp add: dicts2str_def)

lemma dicts2str_all_empty:
  assumes "\<forall>d\<in>set args. d = []"
  shows "dicts2str args = []"
proof -
  have "filter (\<lambda>d. d \<noteq> []) args = []"
    using assms by (simp add: filter_empty_conv)
  then show ?thesis by (simp add: dicts2str_def)
qed

lemma sublist_flag_dicts2str:
  assumes "d \<in> set args" "e \<in> set d"
  shows "sublist (flag e) (dicts2str args)"
proof -
  from assms have "d \<noteq> []" by auto
  with assms(1) have "d2s d \<in> set (map d2s (filter (\<lambda>d. d \<noteq> []) args))" by simp
  then have "sublist (d2s d) (dicts2str args)"
    unfolding dicts2str_def by (rule sublist_join)
  moreover have "sublist (flag e) (d2s d)"
    unfolding d2s_def using assms(2) by (intro sublist_join) simp
  ultimately show ?thesis
    by (meson sublist_order.order.trans)
qed

lemma str_int_1: "str_int 1 = ''1''"
  by (simp add: str_int_def str_nat.simps digit_char_def)

text \<open>
  Claim C8. The empty dictionary is an identity element of \<open>dicts2str\<close>: an empty
  dictionary put in or taken out at any position of the argument list leaves the string
  as it is, so do all of them taken out at once, and arguments that are all empty give
  the empty string.
\<close>

theorem dicts2str_empty_identity:
  "dicts2str (xs @ [] # ys) = dicts2str (xs @ ys)
   \<and> dicts2str (filter (\<lambda>d. d \<noteq> []) args) = dicts2str args
   \<and> ((\<forall>d\<in>set args. d = []) \<longrightarrow> dicts2str args = [])"
  by (simp add: dicts2str_drop_empty dicts2str_filter dicts2str_all_empty)

theorem dicts2str_empty_identity_witness:
  "dicts2str [[(''a'', PInt 1)], [], [(''b'', PStr ''x'')]] = ''-a 1 -b x''
   \<and> dicts2str [[(''a'', PInt 1)], [(''b'', PStr ''x'')]] = ''-a 1 -b x''
   \<and> dicts2str [[], []] = []"
proof -
  have a: "dicts2str [[(''a'', PInt 1)], [(''b'', PStr ''x'')]] = ''-a 1 -b x''"
    by (simp add: dicts2str_def d2s_def flag_def str_int_1)
  have e: "\<forall>d\<in>set [[], [] :: pydict]. d = []" by simp
  from dicts2str_empty_identity[of "[[(''a'', PInt 1)]]" "[[(''b'', PStr ''x'')]]" "[[], []]"] a e
  show ?thesis by simp
qed

text \<open>
  Claim C4. For one dictionary, \<open>dicts2str\<close> gives the tokens \<^verbatim>\<open>-k v\<close> of its entries in
  insertion order, joined by single spaces, each value as string interpolation shows it.
  For several dictionaries it gives the tokens of all of them in argument order, joined
  by single spaces: two dictionaries with entries are rendered one after the other with
  one space between them.
\<close>

theorem dicts2str_tokens:
  "dicts2str [d] = join '' '' (map (\<lambda>(k, v). ''-'' @ k @ '' '' @ py_str v) d)
   \<and> dicts2str args = join '' '' (concat (map (map (\<lambda>(k, v). ''-'' @ k @ '' '' @ py_str v)) args))
   \<and> (d1 \<noteq> [] \<and> d2 \<noteq> [] \<longrightarrow> dicts2str [d1, d2] = dicts2str [d1] @ '' '' @ dicts2str [d2])"
proof (intro conjI impI)
  show "dicts2str [d] = join '' '' (map (\<lambda>(k, v). ''-'' @ k @ '' '' @ py_str v) d)"
    using dicts2str_flat[of "[d]"] by (simp add: flag_eq)
  show "dicts2str args = join '' '' (concat (map (map (\<lambda>(k, v). ''-'' @ k @ '' '' @ py_str v)) args))"
    using dicts2str_flat[of args] by (simp add: flag_eq)
  assume "d1 \<noteq> [] \<and> d2 \<noteq> []"
  then show "dicts2str [d1, d2] = dicts2str [d1] @ '' '' @ dicts2str [d2]"
    by (simp add: dicts2str_def)
qed

theorem dicts2str_tokens_witness:
  "dicts2str [[(''a'', PInt 1), (''b'', PStr ''x y''), (''c'', PStr ''-z'')]] = ''-a 1 -b x y -c -z''
   \<and> dicts2str [[(''a'', PInt 1)], [(''b'', PNone)]] = ''-a 1 -b None''
   \<and> dicts2str [[(''a'', PInt 1)]] @ '' '' @ dicts2str [[(''b'', PNone)]] = ''-a 1 -b None''"
proof -
  note t = dicts2str_tokens[of "[(''a'', PInt 1), (''b'', PStr ''x y''), (''c'', PStr ''-z'')]"
      "[[(''a'', PInt 1)], [(''b'', PNone)]]" "[(''a'', PInt 1)]" "[(''b'', PNone)]"]
  have 1: "dicts2str [[(''a'', PInt 1), (''b'', PStr ''x y''), (''c'', PStr ''-z'')]] = ''-a 1 -b x y -c -z''"
    using t by (simp add: str_int_1)
  have 2: "dicts2str [[(''a'', PInt 1)], [(''b'', PNone)]] = ''-a 1 -b None''"
    using t by (simp add: str_int_1)
  have "dicts2str [[(''a'', PInt 1)], [(''b'', PNone)]]
          = dicts2str [[(''a'', PInt 1)]] @ '' '' @ dicts2str [[(''b'', PNone)]]"
    using t by blast
  with 1 2 show ?thesis by simp
qed

text \<open>
  Claim C2, as stated, fails on \<open>dicts2str\<close>: for \<^verbatim>\<open>{"a": 1, "b": ""}\<close> the string is
  \<^verbatim>\<open>-a 1 -b \<close>, which holds a token for the key \<^verbatim>\<open>b\<close>.
\<close>

theorem dicts2str_skips_empty_counterexample:
  "dicts2str [[(''a'', PInt 1), (''b'', PStr [])]] = ''-a 1 -b ''
   \<and> \<not> (sublist ''-a 1'' (dicts2str [[(''a'', PInt 1), (''b'', PStr [])]])
         \<and> \<not> sublist ''-b'' (dicts2str [[(''a'', PInt 1), (''b'', PStr [])]]))"
proof -
  have "dicts2str [[(''a'', PInt 1), (''b'', PStr [])]] = ''-a 1 -b ''"
    by (simp add: dicts2str_def d2s_def flag_def str_int_1)
  moreover have "sublist ''-b'' ''-a 1 -b ''"
    by (simp add: sublist_Cons_right)
  ultimately show ?thesis by simp
qed

text \<open>
  Claim C2, amended. \<open>dicts2str\<close> skips no key: every entry of every argument dictionary,
  also one whose value is empty or \<^verbatim>\<open>None\<close>, has its token \<^verbatim>\<open>-k v\<close> in the string.
\<close>

theorem dicts2str_renders_every_entry:
  assumes "d \<in> set args" "(k, v) \<in> set d"
  shows "sublist (''-'' @ k @ '' '' @ py_str v) (dicts2str args)"
  using sublist_flag_dicts2str[OF assms] by (simp add: flag_def)

theorem dicts2str_renders_every_entry_witness:
  "[(''a'', PInt 1), (''b'', PStr [])] \<in> set [[(''a'', PInt 1), (''b'', PStr [])]]
   \<and> (''b'', PStr []) \<in> set [(''a'', PInt 1), (''b'', PStr [])]
   \<and> sublist ''-b '' (dicts2str [[(''a'', PInt 1), (''b'', PStr [])]])
   \<and> dicts2str [[(''a'', PInt 1), (''b'', PStr [])]] = ''-a 1 -b ''"
proof -
  have 1: "[(''a'', PInt 1), (''b'', PStr [])] \<in> set [[(''a'', PInt 1), (''b'', PStr [])]]" by simp
  have 2: "(''b'', PStr []) \<in> set [(''a'', PInt 1), (''b'', PStr [])]" by simp
  have 3: "dicts2str [[(''a'', PInt 1), (''b'', PStr [])]] = ''-a 1 -b ''"
    by (simp add: dicts2str_def d2s_def flag_def str_int_1)
  from dicts2str_renders_every_entry[OF 1 2] 1 2 3 show ?thesis by simp
qed

section \<open>Properties of the run loops and of the commands\<close>

subsection \<open>The run loops\<close>

lemma issued_shell: "issued (shell sh st c) = issued st @ [c]"
  by (simp add: shell_def)

lemma run_dict_shell: "run_dict (shell sh st c) = run_dict st"
  by (simp add: shell_def)

lemma greenland_step_issued:
  "issued (greenland_step sh n nm st it) = issued st @ [cmd n (greenland_update nm (run_dict st) it)]"
  by (simp add: greenland_step_def Let_def issued_shell)

lemma greenland_step_run_dict:
  "run_dict (greenland_step sh n nm st it) = greenland_update nm (run_dict st) it"
  by (simp add: greenland_step_def Let_def run_dict_shell)

lemma greenland_loop_Cons:
  "greenland_loop sh n nm st (it # its) = greenland_loop sh n nm (greenland_step sh n nm st it) its"
  by (simp add: greenland_loop_def)

lemma greenland_loop_issued:
  "issued (greenland_loop sh n nm st its)
     = issued st @ map (cmd n) (greenland_dicts nm (run_dict st) its)"
proof (induction its arbitrary: st)
  case Nil
  show ?case by (simp add: greenland_loop_def)
next
  case (Cons it its)
  show ?case
    by (simp add: greenland_loop_Cons Cons.IH greenland_step_issued greenland_step_run_dict)
qed

lemma greenland_loop_run_dict:
  "run_dict (greenland_loop sh n nm st its) = last (run_dict st # greenland_dicts nm (run_dict st) its)"
proof (induction its arbitrary: st)
  case Nil
  show ?case by (simp add: greenland_loop_def)
next
  case (Cons it its)
  show ?case
    by (simp add: greenland_loop_Cons Cons.IH greenland_step_run_dict)
qed

lemma length_greenland_dicts: "length (greenland_dicts nm rd its) = length its"
  by (induction its arbitrary: rd) simp_all

lemma sector_step_issued:
  "issued (sector_step sh n nm name st smp) = issued st @ [cmd n (sector_update nm name (run_dict st) smp)]"
  by (simp add: sector_step_def Let_def issued_shell)

lemma sector_step_run_dict:
  "run_dict (sector_step sh n nm name st smp) = sector_update nm name (run_dict st) smp"
  by (simp add: sector_step_def Let_def run_dict_shell)

lemma sector_inner_issued:
  "issued (foldl (sector_step sh n nm name) st samples)
     = issued st @ map (cmd n) (sector_sample_dicts nm name (run_dict st) samples)"
proof (induction samples arbitrary: st)
  case Nil
  show ?case by simp
next
  case (Cons smp samples)
  show ?case by (simp add: Cons.IH sector_step_issued sector_step_run_dict)
qed

lemma sector_inner_run_dict:
  "run_dict (foldl (sector_step sh n nm name) st samples)
     = last (run_dict st # sector_sample_dicts nm name (run_dict st) samples)"
proof (induction samples arbitrary: st)
  case Nil
  show ?case by simp
next
  case (Cons smp samples)
  show ?case by (simp add: Cons.IH sector_step_run_dict)
qed

lemma sector_loop_Cons:
  "sector_loop sh n nm st (name # names) samples
     = sector_loop sh n nm (foldl (sector_step sh n nm name) st samples) names samples"
  by (simp add: sector_loop_def)

lemma sector_loop_issued:
  "issued (sector_loop sh n nm st domains samples)
     = issued st @ map (cmd n) (sector_dicts nm (run_dict st) domains samples)"
proof (induction domains arbitrary: st)
  case Nil
  show ?case by (simp add: sector_loop_def)
next
  case (Cons name names)
  show ?case
    by (simp only: sector_loop_Cons Cons.IH sector_inner_issued sector_inner_run_dict
        sector_dicts.simps map_append append_assoc)
qed

lemma length_sector_sample_dicts: "length (sector_sample_dicts nm name rd samples) = length samples"
  by (induction samples arbitrary: rd) simp_all

lemma length_sector_dicts: "length (sector_dicts nm rd domains samples) = length domains * length samples"
  by (induction domains arbitrary: rd) (simp_all add: length_sector_sample_dicts)

lemma sector_loop_run_dict:
  "run_dict (sector_loop sh n nm st domains samples)
     = last (run_dict st # sector_dicts nm (run_dict st) domains samples)"
proof (induction domains arbitrary: st)
  case Nil
  show ?case by (simp add: sector_loop_def)
next
  case (Cons name names)
  show ?case
    by (simp add: sector_loop_Cons Cons.IH sector_inner_run_dict)
qed

subsection \<open>Sorting by key\<close>

lemma set_wf_dict: "wf_dict d \<Longrightarrow> set d = {(k, v). map_of d k = Some v}"
  by (auto simp: wf_dict_def)

lemma sorted_sort_dict_by_key: "sorted (map fst (sort_dict_by_key d))"
  by (simp add: sort_dict_by_key_def)

lemma set_sort_dict_by_key: "set (sort_dict_by_key d) = set d"
  by (simp add: sort_dict_by_key_def)

lemma distinct_map_sort_key: "distinct (map f (sort_key f xs)) = distinct (map f xs)"
  by (induction xs) (simp_all add: distinct_insort_key)

lemma wf_sort_dict_by_key: "wf_dict d \<Longrightarrow> wf_dict (sort_dict_by_key d)"
  by (simp add: wf_dict_def sort_dict_by_key_def distinct_map_sort_key)

lemma sort_dict_by_key_unique:
  assumes "wf_dict d1" "wf_dict d2" "map_of d1 = map_of d2"
  shows "sort_dict_by_key d1 = sort_dict_by_key d2"
proof -
  have s: "set d1 = set d2"
    using assms by (simp add: set_wf_dict)
  have w1: "distinct (map fst (sort_dict_by_key d1))" and w2: "distinct (map fst (sort_dict_by_key d2))"
    using assms(1,2) wf_sort_dict_by_key by (auto simp: wf_dict_def)
  have "inj_on fst (set d1)"
    using assms(1) by (auto simp: wf_dict_def inj_on_def dest: eq_key_imp_eq_value)
  then have inj: "inj_on fst (set (sort_dict_by_key d1) \<union> set (sort_dict_by_key d2))"
    by (simp add: set_sort_dict_by_key s)
  show ?thesis
    by (rule map_sorted_distinct_set_unique[OF inj sorted_sort_dict_by_key w1 sorted_sort_dict_by_key w2])
       (simp add: set_sort_dict_by_key s)
qed

text \<open>
  Claim C5. Two dictionaries that are equal as key-value mappings, whatever the order
  their entries were inserted in, are the same dictionary after \<open>sort_dict_by_key\<close>, so
  every rendering of the sorted dictionaries gives the same string; the keys of the sorted
  dictionary are in ascending order and its entries are those of the dictionary.
\<close>

theorem sort_dict_by_key_reproducible:
  assumes "wf_dict d1" "wf_dict d2" "map_of d1 = map_of d2"
  shows "sort_dict_by_key d1 = sort_dict_by_key d2
    \<and> dict2str (sort_dict_by_key d1) = dict2str (sort_dict_by_key d2)
    \<and> dicts2str [sort_dict_by_key d1] = dicts2str [sort_dict_by_key d2]
    \<and> cmd n d1 = cmd n d2
    \<and> sorted (map fst (sort_dict_by_key d1))
    \<and> set (sort_dict_by_key d1) = set d1"
proof -
  have "sort_dict_by_key d1 = sort_dict_by_key d2"
    using assms by (rule sort_dict_by_key_unique)
  moreover from this have "cmd n d1 = cmd n d2"
    by (simp add: cmd_def)
  moreover have "sorted (map fst (sort_dict_by_key d1))"
    by (rule sorted_sort_dict_by_key)
  moreover have "set (sort_dict_by_key d1) = set d1"
    by (rule set_sort_dict_by_key)
  ultimately show ?thesis by simp
qed

theorem sort_dict_by_key_reproducible_witness:
  "wf_dict [(''b'', PInt 1), (''a'', PStr ''x'')] \<and> wf_dict [(''a'', PStr ''x''), (''b'', PInt 1)]
   \<and> map_of [(''b'', PInt 1), (''a'', PStr ''x'')] = map_of [(''a'', PStr ''x''), (''b'', PInt 1)]
   \<and> dict2str (sort_dict_by_key [(''b'', PInt 1), (''a'', PStr ''x'')]) = ''-a x -b 1''
   \<and> dict2str (sort_dict_by_key [(''a'', PStr ''x''), (''b'', PInt 1)]) = ''-a x -b 1''"
proof -
  let ?d1 = "[(''b'', PInt 1), (''a'', PStr ''x'')]" and ?d2 = "[(''a'', PStr ''x''), (''b'', PInt 1)]"
  have 1: "wf_dict ?d1" and 2: "wf_dict ?d2" by (simp_all add: wf_dict_def)
  have 3: "map_of ?d1 = map_of ?d2" by (auto simp: fun_eq_iff)
  have 4: "dict2str (sort_dict_by_key ?d2) = ''-a x -b 1''" by code_simp
  from sort_dict_by_key_reproducible[OF 1 2 3, of 8]
  have "dict2str (sort_dict_by_key ?d1) = dict2str (sort_dict_by_key ?d2)" by blast
  with 1 2 3 4 show ?thesis by simp
qed

subsection \<open>What an update leaves alone\<close>

lemma filter_dict_set_other:
  "k \<in> K \<Longrightarrow> filter (\<lambda>e. fst e \<notin> K) (dict_set d k v) = filter (\<lambda>e. fst e \<notin> K) d"
  by (induction d k v rule: dict_set.induct) simp_all

lemma filter_dict_update_other:
  "fst ` set e \<subseteq> K \<Longrightarrow> filter (\<lambda>e. fst e \<notin> K) (dict_update d e) = filter (\<lambda>e. fst e \<notin> K) d"
proof (induction e arbitrary: d)
  case Nil
  show ?case by (simp add: dict_update_Nil)
next
  case (Cons a e)
  obtain k v where a: "a = (k, v)" by (cases a)
  from Cons.prems have k: "k \<in> K" and e: "fst ` set e \<subseteq> K" by (simp_all add: a)
  show ?case
    by (simp only: a dict_update_Cons Cons.IH[OF e] filter_dict_set_other[OF k])
qed

lemma greenland_update_filter:
  "filter (\<lambda>e. fst e \<notin> greenland_keys) (greenland_update nm rd it) = filter (\<lambda>e. fst e \<notin> greenland_keys) rd"
  unfolding greenland_update_def Let_def
  by (rule filter_dict_update_other) (simp add: greenland_keys_def)

lemma greenland_update_keys:
  "fst ` set (greenland_update nm rd it) = fst ` set rd \<union> greenland_keys"
  by (simp add: greenland_update_def Let_def keys_dict_update greenland_keys_def)

lemma greenland_update_map_of:
  "k \<notin> greenland_keys \<Longrightarrow> map_of (greenland_update nm rd it) k = map_of rd k"
  unfolding greenland_update_def Let_def
  by (rule map_of_dict_update_other) (simp add: greenland_keys_def)

lemma greenland_dicts_frame:
  assumes "i < length its"
  shows "filter (\<lambda>e. fst e \<notin> greenland_keys) (greenland_dicts nm rd its ! i) = filter (\<lambda>e. fst e \<notin> greenland_keys) rd
     \<and> fst ` set (greenland_dicts nm rd its ! i) = fst ` set rd \<union> greenland_keys
     \<and> (\<forall>k. k \<notin> greenland_keys \<longrightarrow> map_of (greenland_dicts nm rd its ! i) k = map_of rd k)"
  using assms
proof (induction its arbitrary: rd i)
  case Nil
  then show ?case by simp
next
  case (Cons it its)
  show ?case
  proof (cases i)
    case 0
    then show ?thesis
      by (simp add: greenland_update_filter greenland_update_keys greenland_update_map_of)
  next
    case (Suc j)
    with Cons.prems have "j < length its" by simp
    from Cons.IH[OF this, of "greenland_update nm rd it"] Suc show ?thesis
      by (simp add: greenland_update_filter greenland_update_keys greenland_update_map_of Un_assoc)
  qed
qed

lemma filter_sort_dict_by_key:
  "filter P (sort_dict_by_key d) = sort_dict_by_key (filter P d)"
  by (simp add: sort_dict_by_key_def filter_sort)

text \<open>
  Claim C9. In the Greenland run loop the \<open>i\<close>-th command is the rendering of the
  dictionary after the \<open>i\<close>-th update. That dictionary has the keys of \<open>run_dict\<close> before
  the loop and the two keys \<^verbatim>\<open>surface.ismip6.file\<close> and \<^verbatim>\<open>output.extra.file\<close>; every other
  key has the value it had before the loop, and the entries of the other keys, in the
  sorted order in which they are rendered, are those of \<open>run_dict\<close> before the loop.
\<close>

theorem greenland_loop_frame:
  assumes "i < length its"
  shows "issued (greenland_loop sh n nm st its) ! (length (issued st) + i)
        = cmd n (greenland_dicts nm (run_dict st) its ! i)
    \<and> fst ` set (greenland_dicts nm (run_dict st) its ! i)
        = fst ` set (run_dict st) \<union> {''surface.ismip6.file'', ''output.extra.file''}
    \<and> (\<forall>k. k \<notin> {''surface.ismip6.file'', ''output.extra.file''}
          \<longrightarrow> map_of (greenland_dicts nm (run_dict st) its ! i) k = map_of (run_dict st) k)
    \<and> filter (\<lambda>e. fst e \<notin> {''surface.ismip6.file'', ''output.extra.file''})
          (sort_dict_by_key (greenland_dicts nm (run_dict st) its ! i))
        = filter (\<lambda>e. fst e \<notin> {''surface.ismip6.file'', ''output.extra.file''})
            (sort_dict_by_key (run_dict st))"
proof -
  note f = greenland_dicts_frame[OF assms, of nm "run_dict st", unfolded greenland_keys_def]
  have "issued (greenland_loop sh n nm st its) ! (length (issued st) + i)
          = map (cmd n) (greenland_dicts nm (run_dict st) its) ! i"
    by (simp add: greenland_loop_issued)
  also have "\<dots> = cmd n (greenland_dicts nm (run_dict st) its ! i)"
    using assms by (simp add: length_greenland_dicts)
  finally have 1: "issued (greenland_loop sh n nm st its) ! (length (issued st) + i)
          = cmd n (greenland_dicts nm (run_dict st) its ! i)" .
  have 4: "filter (\<lambda>e. fst e \<notin> {''surface.ismip6.file'', ''output.extra.file''})
          (sort_dict_by_key (greenland_dicts nm (run_dict st) its ! i))
        = filter (\<lambda>e. fst e \<notin> {''surface.ismip6.file'', ''output.extra.file''})
            (sort_dict_by_key (run_dict st))"
    using f by (simp only: filter_sort_dict_by_key)
  show ?thesis
    by (intro conjI) (rule 1 f[THEN conjunct2, THEN conjunct1] f[THEN conjunct2, THEN conjunct2] 4)+
qed

lemma demo_commands:
  "map (cmd 8) (greenland_dicts demo_names (run_dict demo_state) [(26, ''a.nc''), (85, ''b.nc'')])
     = [''mpirun -np 8 pism -grid.Mz 101 -i g.nc -output.extra.file test_run/spatial_g4500m_rcp_26_2015-01-01_2100-01-01.nc -surface.ismip6.file a.nc'',
        ''mpirun -np 8 pism -grid.Mz 101 -i g.nc -output.extra.file test_run/spatial_g4500m_rcp_85_2015-01-01_2100-01-01.nc -surface.ismip6.file b.nc'']"
  by code_simp

theorem greenland_loop_frame_witness:
  "(1::nat) < length [(26::int, ''a.nc''), (85, ''b.nc'')]
   \<and> issued (greenland_loop (\<lambda>i c. 1) 8 demo_names demo_state [(26, ''a.nc''), (85, ''b.nc'')]) ! 1
       = ''mpirun -np 8 pism -grid.Mz 101 -i g.nc -output.extra.file test_run/spatial_g4500m_rcp_85_2015-01-01_2100-01-01.nc -surface.ismip6.file b.nc''
   \<and> map_of (greenland_dicts demo_names (run_dict demo_state) [(26, ''a.nc''), (85, ''b.nc'')] ! 1) ''grid.Mz''
       = Some (PInt 101)"
proof -
  have l: "(1::nat) < length [(26::int, ''a.nc''), (85, ''b.nc'')]" by simp
  note t = greenland_loop_frame[OF l, of "\<lambda>i c. 1" 8 demo_names demo_state]
  have i: "issued demo_state = []" by (simp add: demo_state_def)
  have "issued (greenland_loop (\<lambda>i c. 1) 8 demo_names demo_state [(26, ''a.nc''), (85, ''b.nc'')]) ! 1
          = map (cmd 8) (greenland_dicts demo_names (run_dict demo_state) [(26, ''a.nc''), (85, ''b.nc'')]) ! 1"
    using t[THEN conjunct1] by (simp add: i)
  then have 1: "issued (greenland_loop (\<lambda>i c. 1) 8 demo_names demo_state [(26, ''a.nc''), (85, ''b.nc'')]) ! 1
       = ''mpirun -np 8 pism -grid.Mz 101 -i g.nc -output.extra.file test_run/spatial_g4500m_rcp_85_2015-01-01_2100-01-01.nc -surface.ismip6.file b.nc''"
    by (simp only: demo_commands) simp
  have k: "''grid.Mz'' \<notin> {''surface.ismip6.file'', ''output.extra.file''}" by simp
  have "map_of (greenland_dicts demo_names (run_dict demo_state) [(26, ''a.nc''), (85, ''b.nc'')] ! 1) ''grid.Mz''
       = map_of (run_dict demo_state) ''grid.Mz''"
    using t[THEN conjunct2, THEN conjunct2, THEN conjunct1, rule_format, OF k] .
  also have "\<dots> = Some (PInt 101)" by (simp add: demo_state_def)
  finally show ?thesis using l 1 by simp
qed

text \<open>
  Claim C7. Both run loops hand the shell exactly one command per iteration, in the order
  of the iterations, each computed from the dictionary and the loop variables alone.
  Whatever exit status the invocations return, the commands and the dictionary are the
  same: the status is stored and never read, nothing is raised, nothing is run again.
\<close>

theorem run_loops_ignore_exit_status:
  "issued (greenland_loop sh n nm st its) = issued st @ map (cmd n) (greenland_dicts nm (run_dict st) its)
   \<and> length (greenland_dicts nm (run_dict st) its) = length its
   \<and> issued (greenland_loop sh n nm st its) = issued (greenland_loop sh' n nm st its)
   \<and> run_dict (greenland_loop sh n nm st its) = run_dict (greenland_loop sh' n nm st its)
   \<and> issued (sector_loop sh n nm st domains samples)
       = issued st @ map (cmd n) (sector_dicts nm (run_dict st) domains samples)
   \<and> length (sector_dicts nm (run_dict st) domains samples) = length domains * length samples
   \<and> issued (sector_loop sh n nm st domains samples) = issued (sector_loop sh' n nm st domains samples)
   \<and> run_dict (sector_loop sh n nm st domains samples) = run_dict (sector_loop sh' n nm st domains samples)"
  by (simp only: greenland_loop_issued length_greenland_dicts greenland_loop_run_dict
      sector_loop_issued length_sector_dicts sector_loop_run_dict simp_thms)

theorem run_loops_ignore_exit_status_witness:
  "issued (greenland_loop (\<lambda>i c. 1) 8 demo_names demo_state [(26, ''a.nc''), (85, ''b.nc'')])
     = [''mpirun -np 8 pism -grid.Mz 101 -i g.nc -output.extra.file test_run/spatial_g4500m_rcp_26_2015-01-01_2100-01-01.nc -surface.ismip6.file a.nc'',
        ''mpirun -np 8 pism -grid.Mz 101 -i g.nc -output.extra.file test_run/spatial_g4500m_rcp_85_2015-01-01_2100-01-01.nc -surface.ismip6.file b.nc'']
   \<and> issued (greenland_loop (\<lambda>i c. 0) 8 demo_names demo_state [(26, ''a.nc''), (85, ''b.nc'')])
     = issued (greenland_loop (\<lambda>i c. 1) 8 demo_names demo_state [(26, ''a.nc''), (85, ''b.nc'')])"
proof -
  note t = run_loops_ignore_exit_status[of "\<lambda>i c. 1" 8 demo_names demo_state "[(26, ''a.nc''), (85, ''b.nc'')]"
      "\<lambda>i c. 0" "[]" "[]"]
  have i: "issued demo_state = []" by (simp add: demo_state_def)
  have 1: "issued (greenland_loop (\<lambda>i c. 1) 8 demo_names demo_state [(26, ''a.nc''), (85, ''b.nc'')])
     = map (cmd 8) (greenland_dicts demo_names (run_dict demo_state) [(26, ''a.nc''), (85, ''b.nc'')])"
    using t[THEN conjunct1] by (simp only: i append_Nil)
  have 2: "issued (greenland_loop (\<lambda>i c. 0) 8 demo_names demo_state [(26, ''a.nc''), (85, ''b.nc'')])
     = issued (greenland_loop (\<lambda>i c. 1) 8 demo_names demo_state [(26, ''a.nc''), (85, ''b.nc'')])"
    using t[THEN conjunct2, THEN conjunct2, THEN conjunct1] by (rule sym)
  show ?thesis
    by (intro conjI) (simp only: 1 demo_commands, rule 2)
qed

lemma str_int_8: "str_int 8 = ''8''"
  by (simp add: str_int_def str_nat.simps digit_char_def)

text \<open>
  Claim C6, as stated, fails for the command that is written out by hand: it has the flag
  \<^verbatim>\<open>-grid.file\<close>, a key of none of the dictionaries beside it, and it is not the command
  built from those dictionaries.
\<close>

theorem literal_command_counterexample:
  "sublist ''-grid.file pism-bedmachine.nc'' literal_f
   \<and> ''grid.file'' \<notin> fst ` set (literal_grid_params @ literal_time_params @ literal_climate_params)
   \<and> literal_f \<noteq> cmd 8 (merge_dicts [literal_grid_params, literal_time_params, literal_climate_params])"
proof (intro conjI)
  show "sublist ''-grid.file pism-bedmachine.nc'' literal_f"
    by code_simp
  show "''grid.file'' \<notin> fst ` set (literal_grid_params @ literal_time_params @ literal_climate_params)"
    by code_simp
  show "literal_f \<noteq> cmd 8 (merge_dicts [literal_grid_params, literal_time_params, literal_climate_params])"
    by code_simp
qed

text \<open>
  Claim C6, amended. A command built in \<^verbatim>\<open>cmd\<close> is \<^verbatim>\<open>mpirun -np\<close>, the process count,
  \<^verbatim>\<open>pism\<close> and the flags of the key-sorted \<open>run_dict\<close>: the tokens of entries of
  \<open>run_dict\<close>, in ascending key order, joined by single spaces. The commands that the two
  run loops hand to the shell are built so.
\<close>

theorem cmd_from_run_dict:
  "cmd n d = ''mpirun -np '' @ str_int n @ '' pism '' @ dict2str (sort_dict_by_key d)
   \<and> (\<exists>es. set es \<subseteq> set d \<and> sorted (map fst es)
          \<and> dict2str (sort_dict_by_key d) = join '' '' (map (\<lambda>(k, v). ''-'' @ k @ '' '' @ py_str v) es))
   \<and> issued (greenland_loop sh n nm st its) = issued st @ map (cmd n) (greenland_dicts nm (run_dict st) its)
   \<and> issued (sector_loop sh n nm st domains samples)
       = issued st @ map (cmd n) (sector_dicts nm (run_dict st) domains samples)"
proof (intro conjI)
  show "cmd n d = ''mpirun -np '' @ str_int n @ '' pism '' @ dict2str (sort_dict_by_key d)"
    by (simp add: cmd_def)
  let ?es = "filter (\<lambda>e. \<not> is_blank (snd e)) (sort_dict_by_key d)"
  have "set ?es \<subseteq> set d"
    by (auto simp: set_sort_dict_by_key)
  moreover have "sorted (map fst ?es)"
    using sorted_sort_dict_by_key[of d] by (simp add: sorted_map sorted_wrt_filter)
  moreover have "dict2str (sort_dict_by_key d) = join '' '' (map (\<lambda>(k, v). ''-'' @ k @ '' '' @ py_str v) ?es)"
    by (simp only: dict2str_def flag_eq)
  ultimately show "\<exists>es. set es \<subseteq> set d \<and> sorted (map fst es)
          \<and> dict2str (sort_dict_by_key d) = join '' '' (map (\<lambda>(k, v). ''-'' @ k @ '' '' @ py_str v) es)"
    by (intro exI[of _ ?es] conjI)
  show "issued (greenland_loop sh n nm st its) = issued st @ map (cmd n) (greenland_dicts nm (run_dict st) its)"
    by (rule greenland_loop_issued)
  show "issued (sector_loop sh n nm st domains samples)
       = issued st @ map (cmd n) (sector_dicts nm (run_dict st) domains samples)"
    by (rule sector_loop_issued)
qed

theorem cmd_from_run_dict_witness:
  "cmd 8 [(''i'', PStr ''g.nc''), (''grid.Mz'', PInt 101)] = ''mpirun -np 8 pism -grid.Mz 101 -i g.nc''"
proof -
  have "dict2str (sort_dict_by_key [(''i'', PStr ''g.nc''), (''grid.Mz'', PInt 101)]) = ''-grid.Mz 101 -i g.nc''"
    by code_simp
  with cmd_from_run_dict[of 8 "[(''i'', PStr ''g.nc''), (''grid.Mz'', PInt 101)]", THEN conjunct1]
  show ?thesis by (simp add: str_int_8)
qed

section \<open>The bed is symmetric\<close>

text \<open>
  Claim C10. \<open>Bx\<close> is an even function of \<open>x\<close>, and \<open>By\<close> takes the same value at the same
  distance on either side of the centerline \<open>y = Ly / 2\<close>, for the default parameters and
  for any others.
\<close>

theorem bed_symmetric:
  "Bx_default (- x) = Bx_default x
   \<and> By_default (80000 / 2 + t) = By_default (80000 / 2 - t)
   \<and> Bx (- x) B0 B2 B4 B6 x_bar = Bx x B0 B2 B4 B6 x_bar
   \<and> By (Ly / 2 + t) Ly dc fc wc = By (Ly / 2 - t) Ly dc fc wc"
proof (intro conjI)
  show "Bx (- x) B0 B2 B4 B6 x_bar = Bx x B0 B2 B4 B6 x_bar"
    by (simp add: Bx_def)
  then show "Bx_default (- x) = Bx_default x"
    by (simp add: Bx_default_def Bx_def)
  show "By (Ly / 2 + t) Ly dc fc wc = By (Ly / 2 - t) Ly dc fc wc"
    by (simp add: By_def algebra_simps)
  show "By_default (80000 / 2 + t) = By_default (80000 / 2 - t)"
    by (simp add: By_default_def By_def algebra_simps)
qed

end
